theory Spec2Isabelle
  imports Main "HOL-Library.Word"
begin

section \<open>go-audit: the daemon's startup code and receive loop (audit.go, logger.go)\<close>

text \<open>
  The development embeds \<^verbatim>\<open>src/go-audit/audit.go\<close> and the parts of
  \<^verbatim>\<open>src/logger/logger.go\<close> that it calls. Mutable package-level variables
  (the two loggers of package main, the three handles of package logger) live in a
  record \<open>world\<close> that every function takes and returns. Errors are values, a panic is
  the left injection of a sum. Everything that comes from outside the repository
  (the conversions of the configuration library, the operating system, the regular
  expression compiler) is a field of the record \<open>env\<close>, so that every theorem holds for
  all behaviours of these collaborators.
\<close>

subsection \<open>Dynamic configuration values\<close>

text \<open>
  A value of Go's \<^verbatim>\<open>interface{}\<close> as the YAML reader produces it. A map is an
  association list: its order is the order in which \<^verbatim>\<open>range\<close> happens to visit
  the keys.
\<close>

datatype cfgval =
    VNil
  | VBool bool
  | VInt int
  | VStr string
  | VList "cfgval list"
  | VMap "(cfgval \<times> cfgval) list"

subsection \<open>Errors, panics, process termination\<close>

datatype numerr = ErrSyntax | ErrRange

datatype errarg = EInt int | EStr string | ENumErr numerr

text \<open>\<^verbatim>\<open>errors.New(fmt.Sprintf(format, args...))\<close>, kept unformatted.\<close>

datatype error = Error string "errarg list"

datatype panic =
    PanicString string
  | PanicError error
  | PanicExternalError string
  | PanicNumError numerr
  | PanicRegexpError string
  | NilPointerDereference

datatype process_end = Exit int | Panicked panic


subsection \<open>strconv: the decimal conversions the code calls\<close>

definition isDigit :: "char \<Rightarrow> bool" where
  "isDigit c = (48 \<le> (of_char c :: nat) \<and> (of_char c :: nat) \<le> 57)"

definition digitVal :: "char \<Rightarrow> nat" where
  "digitVal c = of_char c - 48"

text \<open>
  The scanning loop of \<^verbatim>\<open>strconv.ParseUint(s, 10, bitSize)\<close>: the first byte that is
  not a digit is a syntax error, the first digit that takes the value beyond
  \<open>2 ^ bitSize - 1\<close> is a range error.
\<close>

fun scanUint :: "nat \<Rightarrow> nat \<Rightarrow> string \<Rightarrow> numerr + nat" where
  "scanUint bitSize n [] = Inr n"
| "scanUint bitSize n (c # cs) =
     (if \<not> isDigit c then Inl ErrSyntax
      else if 2 ^ bitSize \<le> 10 * n + digitVal c then Inl ErrRange
      else scanUint bitSize (10 * n + digitVal c) cs)"

definition ParseUint :: "string \<Rightarrow> nat \<Rightarrow> numerr + nat" where
  "ParseUint s bitSize = (if s = [] then Inl ErrSyntax else scanUint bitSize 0 s)"

text \<open>\<^verbatim>\<open>strconv.ParseInt(s, 10, bitSize)\<close>: an optional sign, then \<open>ParseUint\<close>.\<close>

definition ParseInt :: "string \<Rightarrow> nat \<Rightarrow> numerr + int" where
  "ParseInt s bitSize =
     (case s of
        [] \<Rightarrow> Inl ErrSyntax
      | c # cs \<Rightarrow>
          (let neg = (c = CHR ''-'');
               s' = (if c = CHR ''+'' \<or> c = CHR ''-'' then cs else s)
           in case ParseUint s' bitSize of
                Inl e \<Rightarrow> Inl e
              | Inr un \<Rightarrow>
                  if \<not> neg \<and> 2 ^ (bitSize - 1) \<le> un then Inl ErrRange
                  else if neg \<and> 2 ^ (bitSize - 1) < un then Inl ErrRange
                  else Inr (if neg then - int un else int un)))"

definition digitChar :: "nat \<Rightarrow> char" where
  "digitChar d = char_of (48 + d)"

fun natToDec :: "nat \<Rightarrow> string" where
  "natToDec n = (if n < 10 then [digitChar n] else natToDec (n div 10) @ [digitChar (n mod 10)])"

declare natToDec.simps [simp del]

text \<open>\<^verbatim>\<open>strconv.Itoa\<close>.\<close>

definition Itoa :: "int \<Rightarrow> string" where
  "Itoa i = (if i < 0 then CHR ''-'' # natToDec (nat (- i)) else natToDec (nat i))"

subsection \<open>The collaborators outside the repository\<close>

text \<open>
  \<open>ToBool\<close>, \<open>ToInt\<close>, \<open>ToString\<close> and \<open>ToStringSlice\<close> are the conversions behind
  viper's \<^verbatim>\<open>GetBool\<close>, \<^verbatim>\<open>GetInt\<close>, \<^verbatim>\<open>GetString\<close> and \<^verbatim>\<open>GetStringSlice\<close>;
  \<open>Fields\<close> is \<^verbatim>\<open>strings.Fields\<close>; \<open>regexpCompile\<close> gives the error of
  \<^verbatim>\<open>regexp.Compile\<close>, or \<open>None\<close> for a pattern that compiles; \<open>ReadInConfig\<close> gives
  the settings read from a configuration file, keyed by their dotted path; the other
  fields are the answers of the operating system. \<open>NewNetlinkClient\<close> belongs to the
  package \<^verbatim>\<open>client\<close>: it may end the process instead of returning.
\<close>

record env =
  ToBool :: "cfgval \<Rightarrow> bool"
  ToInt :: "cfgval \<Rightarrow> int"
  ToString :: "cfgval \<Rightarrow> string"
  ToStringSlice :: "cfgval \<Rightarrow> string list"
  Fields :: "string \<Rightarrow> string list"
  regexpCompile :: "string \<Rightarrow> string option"
  ReadInConfig :: "string \<Rightarrow> string + (string \<Rightarrow> cfgval option)"
  syslogDial :: "string \<Rightarrow> string \<Rightarrow> int \<Rightarrow> string \<Rightarrow> string + nat"
  OpenFile :: "string \<Rightarrow> 32 word \<Rightarrow> string option"
  Chmod :: "string \<Rightarrow> 32 word \<Rightarrow> string option"
  Lookup :: "string \<Rightarrow> string + string"
  LookupGroup :: "string \<Rightarrow> string + string"
  Chown :: "string \<Rightarrow> int \<Rightarrow> int \<Rightarrow> string option"
  NewNetlinkClient :: "int \<Rightarrow> process_end option"

subsection \<open>viper: defaults under the settings of the file\<close>

record viper =
  defaults :: "string \<Rightarrow> cfgval option"
  settings :: "string \<Rightarrow> cfgval option"

definition viper_New :: viper where
  "viper_New = \<lparr>defaults = Map.empty, settings = Map.empty\<rparr>"

definition SetDefault :: "string \<Rightarrow> cfgval \<Rightarrow> viper \<Rightarrow> viper" where
  "SetDefault k v config = config\<lparr>defaults := (defaults config)(k \<mapsto> v)\<rparr>"

definition Get :: "viper \<Rightarrow> string \<Rightarrow> cfgval" where
  "Get config k =
     (case settings config k of
        Some v \<Rightarrow> v
      | None \<Rightarrow> (case defaults config k of Some v \<Rightarrow> v | None \<Rightarrow> VNil))"

definition GetBool :: "env \<Rightarrow> viper \<Rightarrow> string \<Rightarrow> bool" where
  "GetBool env config k = ToBool env (Get config k)"

definition GetInt :: "env \<Rightarrow> viper \<Rightarrow> string \<Rightarrow> int" where
  "GetInt env config k = ToInt env (Get config k)"

definition GetString :: "env \<Rightarrow> viper \<Rightarrow> string \<Rightarrow> string" where
  "GetString env config k = ToString env (Get config k)"

definition GetStringSlice :: "env \<Rightarrow> viper \<Rightarrow> string \<Rightarrow> string list" where
  "GetStringSlice env config k = ToStringSlice env (Get config k)"

subsection \<open>The loggers\<close>

datatype stream = Stdout | Stderr

text \<open>A \<^verbatim>\<open>log.Logger\<close>: where it writes and its flags (the prefix is always empty).\<close>

record go_logger =
  lg_out :: stream
  lg_flags :: int

text \<open>
  The package-level variables \<^verbatim>\<open>l\<close> and \<^verbatim>\<open>el\<close> of package main are the fields
  \<open>var_l\<close> and \<open>var_el\<close>. Package logger holds pointers to them: \<open>PtrL\<close> and \<open>PtrEL\<close>
  are those addresses, \<open>None\<close> is \<^verbatim>\<open>nil\<close>. \<open>sysLog\<close> is a handle of a syslog
  connection or \<^verbatim>\<open>nil\<close>.
\<close>

datatype logref = PtrL | PtrEL

datatype logarg =
  AInt int | AStr string | AVal cfgval | AWord "16 word" | AErr error | ANumErr numerr

datatype severity = SevCrit | SevErr | SevInfo

datatype event =
    Printed stream int string "logarg list"
  | Syslogged nat severity string "logarg list"
  | FlagUsage

record world =
  var_l :: go_logger
  var_el :: go_logger
  stdOut :: "logref option"
  stdErr :: "logref option"
  sysLog :: "nat option"
  events :: "event list"

text \<open>line 22 and 23 of audit.go, and the zero values of logger.go\<close>

definition initial_world :: world where
  "initial_world =
     \<lparr>var_l = \<lparr>lg_out = Stdout, lg_flags = 0\<rparr>,
      var_el = \<lparr>lg_out = Stderr, lg_flags = 0\<rparr>,
      stdOut = None, stdErr = None, sysLog = None, events = []\<rparr>"

fun deref :: "world \<Rightarrow> logref \<Rightarrow> go_logger" where
  "deref w PtrL = var_l w"
| "deref w PtrEL = var_el w"

definition emit :: "event \<Rightarrow> world \<Rightarrow> world" where
  "emit ev w = w\<lparr>events := events w @ [ev]\<rparr>"

text \<open>
  \<^verbatim>\<open>(*log.Logger).Printf\<close> on the logger behind a pointer. The event keeps the
  format and the arguments as the caller gave them, unformatted.
\<close>

definition Printf :: "logref \<Rightarrow> string \<Rightarrow> logarg list \<Rightarrow> world \<Rightarrow> world" where
  "Printf p format a w = emit (Printed (lg_out (deref w p)) (lg_flags (deref w p)) format a) w"

definition AuditLoggerNew :: "logref option \<Rightarrow> logref option \<Rightarrow> nat option \<Rightarrow> world \<Rightarrow> world" where
  "AuditLoggerNew so se sl w = w\<lparr>stdOut := so, stdErr := se, sysLog := sl\<rparr>"

text \<open>
  \<^verbatim>\<open>logger.Crit\<close>, \<^verbatim>\<open>logger.Err\<close> and \<^verbatim>\<open>logger.Info\<close>. The error they return is
  dropped by every caller in audit.go, so the model returns the world alone.
\<close>

definition logger_Crit :: "string \<Rightarrow> logarg list \<Rightarrow> world \<Rightarrow> world" where
  "logger_Crit format a w =
     (case sysLog w of
        Some h \<Rightarrow> emit (Syslogged h SevCrit format a) w
      | None \<Rightarrow> (case stdErr w of Some p \<Rightarrow> Printf p format a w | None \<Rightarrow> w))"

definition logger_Err :: "string \<Rightarrow> logarg list \<Rightarrow> world \<Rightarrow> world" where
  "logger_Err format a w =
     (case sysLog w of
        Some h \<Rightarrow> emit (Syslogged h SevErr format a) w
      | None \<Rightarrow> (case stdErr w of Some p \<Rightarrow> Printf p format a w | None \<Rightarrow> w))"

definition logger_Info :: "string \<Rightarrow> logarg list \<Rightarrow> world \<Rightarrow> world" where
  "logger_Info format a w =
     (case sysLog w of
        Some h \<Rightarrow> emit (Syslogged h SevInfo format a) w
      | None \<Rightarrow> (case stdOut w of Some p \<Rightarrow> Printf p format a w | None \<Rightarrow> w))"

subsection \<open>loadConfig\<close>

definition SetFlags :: "logref \<Rightarrow> int \<Rightarrow> world \<Rightarrow> world" where
  "SetFlags p n w =
     (case p of
        PtrL \<Rightarrow> w\<lparr>var_l := (var_l w)\<lparr>lg_flags := n\<rparr>\<rparr>
      | PtrEL \<Rightarrow> w\<lparr>var_el := (var_el w)\<lparr>lg_flags := n\<rparr>\<rparr>)"

definition SetOutput :: "logref \<Rightarrow> stream \<Rightarrow> world \<Rightarrow> world" where
  "SetOutput p s w =
     (case p of
        PtrL \<Rightarrow> w\<lparr>var_l := (var_l w)\<lparr>lg_out := s\<rparr>\<rparr>
      | PtrEL \<Rightarrow> w\<lparr>var_el := (var_el w)\<lparr>lg_out := s\<rparr>\<rparr>)"

text \<open>The eight defaults of lines 35 to 42; 132 is \<^verbatim>\<open>LOG_LOCAL0|LOG_WARNING\<close>.\<close>

definition config_defaults :: viper where
  "config_defaults =
     (SetDefault ''log.flags'' (VInt 0)
     (SetDefault ''output.syslog.attempts'' (VStr ''3'')
     (SetDefault ''output.syslog.tag'' (VStr ''go-audit'')
     (SetDefault ''output.syslog.priority'' (VInt 132)
     (SetDefault ''output.syslog.enabled'' (VBool False)
     (SetDefault ''message_tracking.max_out_of_order'' (VInt 500)
     (SetDefault ''message_tracking.log_out_of_order'' (VBool False)
     (SetDefault ''message_tracking.enabled'' (VBool True) viper_New))))))))"

definition loadConfig :: "env \<Rightarrow> string \<Rightarrow> world \<Rightarrow> (string + viper) \<times> world" where
  "loadConfig env configFile w =
     (case ReadInConfig env configFile of
        Inl err \<Rightarrow> (Inl err, w)
      | Inr file \<Rightarrow>
          (let config = config_defaults\<lparr>settings := file\<rparr>;
               w1 = SetFlags PtrL (GetInt env config ''log.flags'') w;
               w2 = SetFlags PtrEL (GetInt env config ''log.flags'') w1
           in (Inr config, w2)))"

subsection \<open>setRules\<close>

text \<open>
  An \<^verbatim>\<open>executor\<close> runs a command: it returns the error, if any, and changes the
  state \<open>'x\<close> of whatever it runs on.
\<close>

type_synonym 'x executor = "string \<Rightarrow> string list \<Rightarrow> 'x \<Rightarrow> string option \<times> 'x"

text \<open>The loop of lines 64 to 75; \<open>i\<close> is the index of the first rule of the list.\<close>

fun addRules :: "env \<Rightarrow> 'x executor \<Rightarrow> int \<Rightarrow> string list \<Rightarrow> 'x \<Rightarrow> world
                  \<Rightarrow> error option \<times> 'x \<times> world" where
  "addRules env e i [] x w = (None, x, w)"
| "addRules env e i (v # vs) x w =
     (if v = [] then addRules env e (i + 1) vs x w
      else (case e ''auditctl'' (Fields env v) x of
              (Some err, x') \<Rightarrow>
                (Some (Error ''Failed to add rule #%d. Error: %s'' [EInt (i + 1), EStr err]), x', w)
            | (None, x') \<Rightarrow>
                addRules env e (i + 1) vs x'
                  (logger_Info ''Added audit rule #%d'' [AInt (i + 1)] w)))"

definition setRules :: "env \<Rightarrow> viper \<Rightarrow> 'x executor \<Rightarrow> 'x \<Rightarrow> world
                         \<Rightarrow> error option \<times> 'x \<times> world" where
  "setRules env config e x w =
     (case e ''auditctl'' [''-D''] x of
        (Some err, x') \<Rightarrow>
          (Some (Error ''Failed to flush existing audit rules. Error: %s'' [EStr err]), x', w)
      | (None, x') \<Rightarrow>
          (let w' = logger_Info ''Flushed existing audit rules'' [] w;
               rules = GetStringSlice env config ''rules''
           in if length rules \<noteq> 0 then addRules env e 0 rules x' w'
              else (Some (Error ''No audit rules found.'' []), x', w')))"

subsection \<open>The output constructors\<close>

datatype sink = SyslogWriter nat | File string | OsStdout

text \<open>
  Modelled from the spec: the type \<^verbatim>\<open>AuditWriter\<close> and \<^verbatim>\<open>NewAuditWriter\<close> of the
  package \<^verbatim>\<open>writer\<close>, which is not among the sources. The writer wraps a sink and
  carries the configured number of attempts; the constructor always returns a writer.
\<close>

record audit_writer =
  aw_sink :: sink
  aw_attempts :: int

definition NewAuditWriter :: "sink \<Rightarrow> int \<Rightarrow> audit_writer" where
  "NewAuditWriter s attempts = \<lparr>aw_sink = s, aw_attempts = attempts\<rparr>"

definition createSyslogOutput :: "env \<Rightarrow> viper \<Rightarrow> world \<Rightarrow> (error + audit_writer) \<times> world" where
  "createSyslogOutput env config w =
     (let attempts = GetInt env config ''output.syslog.attempts'' in
      if attempts < 1 then
        (Inl (Error ''Output attempts for syslog must be at least 1, %v provided'' [EInt attempts]), w)
      else
        (case syslogDial env
                (GetString env config ''output.syslog.network'')
                (GetString env config ''output.syslog.address'')
                (GetInt env config ''output.syslog.priority'')
                (GetString env config ''output.syslog.tag'') of
           Inl err \<Rightarrow> (Inl (Error ''Failed to open syslog writer. Error: %v'' [EStr err]), w)
         | Inr syslogWriter \<Rightarrow> (Inr (NewAuditWriter (SyslogWriter syslogWriter) attempts), w)))"

text \<open>
  \<^verbatim>\<open>os.FileMode\<close> is a 32-bit unsigned integer: the conversion of the configured
  \<^verbatim>\<open>int\<close> wraps around.
\<close>

definition createFileOutput :: "env \<Rightarrow> viper \<Rightarrow> world \<Rightarrow> (error + audit_writer) \<times> world" where
  "createFileOutput env config w =
     (let attempts = GetInt env config ''output.file.attempts'' in
      if attempts < 1 then
        (Inl (Error ''Output attempts for file must be at least 1, %v provided'' [EInt attempts]), w)
      else
        (let mode = (word_of_int (GetInt env config ''output.file.mode'') :: 32 word) in
         if mode < 1 then (Inl (Error ''Output file mode should be greater than 0000'' []), w)
         else
           (let path = GetString env config ''output.file.path'' in
            case OpenFile env path mode of
              Some err \<Rightarrow> (Inl (Error ''Failed to open output file. Error: %s'' [EStr err]), w)
            | None \<Rightarrow>
            (case Chmod env path mode of
              Some err \<Rightarrow> (Inl (Error ''Failed to set file permissions. Error: %s'' [EStr err]), w)
            | None \<Rightarrow>
            (let uname = GetString env config ''output.file.user'' in
             case Lookup env uname of
              Inl err \<Rightarrow>
                (Inl (Error ''Could not find uid for user %s. Error: %s'' [EStr uname, EStr err]), w)
            | Inr u_Uid \<Rightarrow>
            (let gname = GetString env config ''output.file.group'' in
             case LookupGroup env gname of
              Inl err \<Rightarrow>
                (Inl (Error ''Could not find gid for group %s. Error: %s'' [EStr gname, EStr err]), w)
            | Inr g_Gid \<Rightarrow>
            (case ParseInt u_Uid 32 of
              Inl err \<Rightarrow> (Inl (Error ''Found uid could not be parsed. Error: %s'' [ENumErr err]), w)
            | Inr uid \<Rightarrow>
            (case ParseInt g_Gid 32 of
              Inl err \<Rightarrow> (Inl (Error ''Found gid could not be parsed. Error: %s'' [ENumErr err]), w)
            | Inr gid \<Rightarrow>
            (case Chown env path uid gid of
              Some err \<Rightarrow> (Inl (Error ''Could not chown output file. Error: %s'' [EStr err]), w)
            | None \<Rightarrow> (Inr (NewAuditWriter (File path) attempts), w))))))))))"

definition createStdOutOutput :: "env \<Rightarrow> viper \<Rightarrow> world \<Rightarrow> (error + audit_writer) \<times> world" where
  "createStdOutOutput env config w =
     (let attempts = GetInt env config ''output.stdout.attempts'' in
      if attempts < 1 then
        (Inl (Error ''Output attempts for stdout must be at least 1, %v provided'' [EInt attempts]), w)
      else (Inr (NewAuditWriter OsStdout attempts), SetOutput PtrL Stderr w))"

text \<open>
  \<open>createOutput\<close>: the three blocks of lines 88 to 110 in turn, each on the local
  variables \<^verbatim>\<open>writer\<close> (a pointer, \<open>None\<close> for \<^verbatim>\<open>nil\<close>) and \<^verbatim>\<open>i\<close>, then the two
  checks of lines 112 to 118.
\<close>

definition createOutput :: "env \<Rightarrow> viper \<Rightarrow> world \<Rightarrow> (error + audit_writer) \<times> world" where
  "createOutput env config w =
     (case (if GetBool env config ''output.syslog.enabled'' then
              (case createSyslogOutput env config w of
                 (Inl err, w1) \<Rightarrow> Inl (err, w1)
               | (Inr wr, w1) \<Rightarrow> Inr (Some wr, 0 + 1, w1))
            else Inr (None, 0 :: int, w)) of
        Inl (err, w1) \<Rightarrow> (Inl err, w1)
      | Inr (writer1, i1, w1) \<Rightarrow>
     (case (if GetBool env config ''output.file.enabled'' then
              (case createFileOutput env config w1 of
                 (Inl err, w2) \<Rightarrow> Inl (err, w2)
               | (Inr wr, w2) \<Rightarrow> Inr (Some wr, i1 + 1, w2))
            else Inr (writer1, i1, w1)) of
        Inl (err, w2) \<Rightarrow> (Inl err, w2)
      | Inr (writer2, i2, w2) \<Rightarrow>
     (case (if GetBool env config ''output.stdout.enabled'' then
              (case createStdOutOutput env config w2 of
                 (Inl err, w3) \<Rightarrow> Inl (err, w3)
               | (Inr wr, w3) \<Rightarrow> Inr (Some wr, i2 + 1, w3))
            else Inr (writer2, i2, w2)) of
        Inl (err, w3) \<Rightarrow> (Inl err, w3)
      | Inr (writer3, i3, w3) \<Rightarrow>
          if i3 > 1 then (Inl (Error ''Only one output can be enabled at a time'' []), w3)
          else (case writer3 of
                  None \<Rightarrow> (Inl (Error ''No outputs were configured'' []), w3)
                | Some wr \<Rightarrow> (Inr wr, w3)))))"

subsection \<open>createFilters\<close>

text \<open>A compiled \<^verbatim>\<open>regexp.Regexp\<close> keeps its source text, which \<^verbatim>\<open>String()\<close> returns.\<close>

datatype regexp = Regexp string

fun regexp_String :: "regexp \<Rightarrow> string" where
  "regexp_String (Regexp expr) = expr"

text \<open>
  Modelled from the spec: the struct \<^verbatim>\<open>AuditFilter\<close> of the package
  \<^verbatim>\<open>marshaller\<close>, which is not among the sources. Its three fields take the values
  that createFilters assigns: a 16-bit unsigned message type, a string, and a pointer
  to a compiled regular expression (\<open>None\<close> for \<^verbatim>\<open>nil\<close>).
\<close>

record audit_filter =
  MessageType :: "16 word"
  Regex :: "regexp option"
  Syscall :: string

text \<open>\<^verbatim>\<open>AuditFilter{}\<close>\<close>

definition zero_filter :: audit_filter where
  "zero_filter = \<lparr>MessageType = 0, Regex = None, Syscall = []\<rparr>"

text \<open>
  The \<^verbatim>\<open>switch k\<close> of lines 239 to 282 for one key and value of filter number
  \<open>i + 1\<close>. The inner test of line 250 can never fail and has no branch here.
\<close>

definition setField :: "env \<Rightarrow> int \<Rightarrow> cfgval \<Rightarrow> cfgval \<Rightarrow> audit_filter \<Rightarrow> world
                         \<Rightarrow> (panic + audit_filter) \<times> world" where
  "setField env i k v af w =
     (if k = VStr ''message_type'' then
        (case v of
           VStr ev \<Rightarrow>
             (case ParseUint ev 64 of
                Inl err \<Rightarrow>
                  (Inl (PanicNumError err),
                   logger_Crit ''`message_type` in filter %d could not be parsed %v (%v) ''
                     [AInt (i + 1), AVal v, ANumErr err] w)
              | Inr fv \<Rightarrow> (Inr (af\<lparr>MessageType := of_nat fv\<rparr>), w))
         | VInt ev \<Rightarrow> (Inr (af\<lparr>MessageType := of_int ev\<rparr>), w)
         | _ \<Rightarrow>
             (Inl (PanicString ''`message_type` in filter could not be parsed''),
              logger_Crit ''`message_type` in filter %d could not be parsed %v''
                [AInt (i + 1), AVal v] w))
      else if k = VStr ''regex'' then
        (case v of
           VStr re \<Rightarrow>
             (case regexpCompile env re of
                Some err \<Rightarrow>
                  (Inl (PanicRegexpError err),
                   logger_Crit ''`regex` in filter %d could not be parsed %v''
                     [AInt (i + 1), AVal v] w)
              | None \<Rightarrow> (Inr (af\<lparr>Regex := Some (Regexp re)\<rparr>), w))
         | _ \<Rightarrow>
             (Inl (PanicString ''`regex` in filter could not be parsed''),
              logger_Crit ''`regex` in filter %d could not be parsed %v''
                [AInt (i + 1), AVal v] w))
      else if k = VStr ''syscall'' then
        (case v of
           VStr s \<Rightarrow> (Inr (af\<lparr>Syscall := s\<rparr>), w)
         | VInt ev \<Rightarrow> (Inr (af\<lparr>Syscall := Itoa ev\<rparr>), w)
         | _ \<Rightarrow>
             (Inl (PanicString ''`syscall` in filter could not be parsed''),
              logger_Crit ''`syscall` in filter %d could not be parsed %v''
                [AInt (i + 1), AVal v] w))
      else (Inr af, w))"

text \<open>\<^verbatim>\<open>for k, v := range f2\<close>\<close>

fun rangeFields :: "env \<Rightarrow> int \<Rightarrow> (cfgval \<times> cfgval) list \<Rightarrow> audit_filter \<Rightarrow> world
                     \<Rightarrow> (panic + audit_filter) \<times> world" where
  "rangeFields env i [] af w = (Inr af, w)"
| "rangeFields env i ((k, v) # kvs) af w =
     (case setField env i k v af w of
        (Inl p, w') \<Rightarrow> (Inl p, w')
      | (Inr af', w') \<Rightarrow> rangeFields env i kvs af' w')"

text \<open>
  \<^verbatim>\<open>for i, f := range ft\<close>. The call of \<^verbatim>\<open>logger.Info\<close> on line 286 evaluates
  \<^verbatim>\<open>af.Regex.String()\<close> first, which reads through the pointer.
\<close>

fun rangeFilters :: "env \<Rightarrow> int \<Rightarrow> cfgval list \<Rightarrow> audit_filter list \<Rightarrow> world
                      \<Rightarrow> (panic + audit_filter list) \<times> world" where
  "rangeFilters env i [] filters w = (Inr filters, w)"
| "rangeFilters env i (f # ft) filters w =
     (case f of
        VMap f2 \<Rightarrow>
          (case rangeFields env i f2 zero_filter w of
             (Inl p, w') \<Rightarrow> (Inl p, w')
           | (Inr af, w') \<Rightarrow>
               (case Regex af of
                  None \<Rightarrow> (Inl NilPointerDereference, w')
                | Some re \<Rightarrow>
                    rangeFilters env (i + 1) ft (filters @ [af])
                      (logger_Info
                         (''Ignoring  syscall `%v` containing message type `%v` matching string `%s`''
                            @ [CHR 0x0A])
                         [AStr (Syscall af), AWord (MessageType af), AStr (regexp_String re)] w')))
      | _ \<Rightarrow>
          (Inl (PanicString ''Could not parse filter''),
           logger_Crit ''Could not parse filter %d, %v'' [AInt (i + 1), AVal f] w))"

definition createFilters :: "env \<Rightarrow> viper \<Rightarrow> world \<Rightarrow> (panic + audit_filter list) \<times> world" where
  "createFilters env config w =
     (case Get config ''filters'' of
        VNil \<Rightarrow> (Inr [], w)
      | VList ft \<Rightarrow> rangeFilters env 0 ft [] w
      | _ \<Rightarrow> (Inr [], w))"

subsection \<open>main\<close>

text \<open>
  What one call of \<^verbatim>\<open>nlClient.Receive()\<close> returns: an error, a nil message, or a
  message.
\<close>

datatype 'msg received = RecvError string | RecvNil | RecvMsg 'msg

text \<open>
  The loop of lines 336 to 348 never returns. The model runs it on the results of
  the first calls of \<^verbatim>\<open>Receive\<close>: \<open>Inl\<close> when the process ended while consuming one
  of them, \<open>Inr\<close> with the state of the marshaller when the loop is still running after
  the last. \<open>Consume\<close> belongs to the package \<^verbatim>\<open>marshaller\<close>, which is not among the
  sources, and is a parameter: it may change the marshaller and the world, or end
  the process.
\<close>

fun mainLoop :: "('msg \<Rightarrow> 'm \<Rightarrow> world \<Rightarrow> (process_end + 'm) \<times> world) \<Rightarrow> 'msg received list
                  \<Rightarrow> 'm \<Rightarrow> world \<Rightarrow> (process_end + 'm) \<times> world" where
  "mainLoop Consume [] marshaller w = (Inr marshaller, w)"
| "mainLoop Consume (r # rs) marshaller w =
     (case r of
        RecvError err \<Rightarrow>
          mainLoop Consume rs marshaller
            (logger_Err ''Error during message receive: %+v'' [AStr err] w)
      | RecvNil \<Rightarrow> mainLoop Consume rs marshaller w
      | RecvMsg msg \<Rightarrow>
          (case Consume msg marshaller w of
             (Inl t, w') \<Rightarrow> (Inl t, w')
           | (Inr marshaller', w') \<Rightarrow> mainLoop Consume rs marshaller' w'))"

text \<open>
  \<open>main\<close>, from the value of the flag \<^verbatim>\<open>--config\<close>. \<open>lExec\<close> runs a command on the
  machine; \<open>NewAuditMarshaller\<close> is the constructor of the package
  \<^verbatim>\<open>marshaller\<close>, a parameter like \<open>Consume\<close>.
\<close>

definition main :: "env \<Rightarrow> 'x executor
    \<Rightarrow> (audit_writer \<Rightarrow> bool \<Rightarrow> bool \<Rightarrow> int \<Rightarrow> audit_filter list \<Rightarrow> 'm)
    \<Rightarrow> ('msg \<Rightarrow> 'm \<Rightarrow> world \<Rightarrow> (process_end + 'm) \<times> world)
    \<Rightarrow> string \<Rightarrow> 'msg received list \<Rightarrow> 'x \<Rightarrow> world \<Rightarrow> (process_end + 'm) \<times> 'x \<times> world" where
  "main env lExec NewAuditMarshaller Consume configFile recvs x w0 =
     (let w1 = AuditLoggerNew (Some PtrL) (Some PtrEL) None w0 in
      if configFile = [] then
        (Inl (Exit 1), x, emit FlagUsage (logger_Err ''A config file must be provided'' [] w1))
      else
        (case loadConfig env configFile w1 of
           (Inl err, w2) \<Rightarrow>
             (Inl (Panicked (PanicExternalError err)), x, logger_Crit ''%v'' [AStr err] w2)
         | (Inr config, w2) \<Rightarrow>
        (case createOutput env config w2 of
           (Inl err, w3) \<Rightarrow> (Inl (Panicked (PanicError err)), x, logger_Crit ''%v'' [AErr err] w3)
         | (Inr writer, w3) \<Rightarrow>
        (case setRules env config lExec x w3 of
           (Some err, x', w4) \<Rightarrow>
             (Inl (Panicked (PanicError err)), x', logger_Crit ''%v'' [AErr err] w4)
         | (None, x', w4) \<Rightarrow>
        (case NewNetlinkClient env (GetInt env config ''socket_buffer.receive'') of
           Some t \<Rightarrow> (Inl t, x', w4)
         | None \<Rightarrow>
        (case createFilters env config w4 of
           (Inl p, w5) \<Rightarrow> (Inl (Panicked p), x', w5)
         | (Inr filters, w5) \<Rightarrow>
             (let marshaller = NewAuditMarshaller writer
                    (GetBool env config ''message_tracking.enabled'')
                    (GetBool env config ''message_tracking.log_out_of_order'')
                    (GetInt env config ''message_tracking.max_out_of_order'')
                    filters;
                  w6 = logger_Info ''Started processing events'' [] w5
              in case mainLoop Consume recvs marshaller w6 of (r, w7) \<Rightarrow> (r, x', w7))))))))"

subsection \<open>Reference notions used in the statements\<close>

type_synonym call = "string \<times> string list"

definition recordingExecutor :: "(call list \<Rightarrow> string option) \<Rightarrow> call list executor" where
  "recordingExecutor answer name args h = (answer (h @ [(name, args)]), h @ [(name, args)])"

definition spec_calls :: "env \<Rightarrow> string list \<Rightarrow> call list" where
  "spec_calls env rules =
     (''auditctl'', [''-D'']) # map (\<lambda>v. (''auditctl'', Fields env v)) (filter (\<lambda>v. v \<noteq> []) rules)"

fun spec_run :: "(call list \<Rightarrow> string option) \<Rightarrow> call list \<Rightarrow> call list \<Rightarrow> string option \<times> call list" where
  "spec_run answer h [] = (None, h)"
| "spec_run answer h (c # cs) =
     (case answer (h @ [c]) of
        Some err \<Rightarrow> (Some err, h @ [c])
      | None \<Rightarrow> spec_run answer (h @ [c]) cs)"

definition enabledCount :: "env \<Rightarrow> viper \<Rightarrow> nat" where
  "enabledCount env config =
     length (filter (GetBool env config)
       [''output.syslog.enabled'', ''output.file.enabled'', ''output.stdout.enabled''])"

definition enabledConstructor :: "env \<Rightarrow> viper \<Rightarrow> world \<Rightarrow> (error + audit_writer) \<times> world" where
  "enabledConstructor env config =
     (if GetBool env config ''output.syslog.enabled'' then createSyslogOutput env config
      else if GetBool env config ''output.file.enabled'' then createFileOutput env config
      else createStdOutOutput env config)"

definition invalidField :: "env \<Rightarrow> cfgval \<times> cfgval \<Rightarrow> bool" where
  "invalidField env kv =
     (case kv of (k, v) \<Rightarrow>
        (k = VStr ''message_type'' \<and>
           (case v of VStr s \<Rightarrow> isl (ParseUint s 64) | VInt n \<Rightarrow> False | _ \<Rightarrow> True))
      \<or> (k = VStr ''regex'' \<and>
           (case v of VStr re \<Rightarrow> regexpCompile env re \<noteq> None | _ \<Rightarrow> True))
      \<or> (k = VStr ''syscall'' \<and>
           (case v of VStr s \<Rightarrow> False | VInt n \<Rightarrow> False | _ \<Rightarrow> True)))"

definition invalidFilter :: "env \<Rightarrow> cfgval \<Rightarrow> bool" where
  "invalidFilter env f = (case f of VMap kvs \<Rightarrow> list_ex (invalidField env) kvs | _ \<Rightarrow> True)"

definition decimalValue :: "string \<Rightarrow> nat" where
  "decimalValue s = foldl (\<lambda>n c. 10 * n + digitVal c) 0 s"

definition decimalString :: "string \<Rightarrow> bool" where
  "decimalString s = (s \<noteq> [] \<and> list_all isDigit s)"

definition messageTypeValue :: "cfgval \<Rightarrow> int" where
  "messageTypeValue v = (case v of VInt n \<Rightarrow> n | VStr s \<Rightarrow> int (decimalValue s) | _ \<Rightarrow> 0)"

definition syscallText :: "cfgval \<Rightarrow> string" where
  "syscallText v = (case v of VStr s \<Rightarrow> s | VInt n \<Rightarrow> Itoa n | _ \<Rightarrow> [])"

definition acceptedFilter :: "env \<Rightarrow> (cfgval \<times> cfgval) list \<Rightarrow> bool" where
  "acceptedFilter env kvs =
     (distinct (map fst kvs)
      \<and> (case map_of kvs (VStr ''message_type'') of
           Some (VInt n) \<Rightarrow> True
         | Some (VStr s) \<Rightarrow> decimalString s \<and> decimalValue s < 2 ^ 64
         | _ \<Rightarrow> False)
      \<and> (case map_of kvs (VStr ''syscall'') of
           Some (VInt n) \<Rightarrow> True
         | Some (VStr s) \<Rightarrow> True
         | _ \<Rightarrow> False)
      \<and> (case map_of kvs (VStr ''regex'') of
           Some (VStr re) \<Rightarrow> regexpCompile env re = None
         | _ \<Rightarrow> False))"

definition normalized :: "(cfgval \<times> cfgval) list \<Rightarrow> audit_filter" where
  "normalized kvs =
     \<lparr>MessageType = (case map_of kvs (VStr ''message_type'') of
                       Some v \<Rightarrow> word_of_int (messageTypeValue v) | None \<Rightarrow> 0),
      Regex = (case map_of kvs (VStr ''regex'') of Some (VStr re) \<Rightarrow> Some (Regexp re) | _ \<Rightarrow> None),
      Syscall = (case map_of kvs (VStr ''syscall'') of Some v \<Rightarrow> syscallText v | None \<Rightarrow> [])\<rparr>"

definition mtWord :: "cfgval \<Rightarrow> 16 word" where
  "mtWord v = word_of_int (messageTypeValue v)"

definition isMessage :: "'msg received \<Rightarrow> bool" where
  "isMessage r = (case r of RecvMsg msg \<Rightarrow> True | _ \<Rightarrow> False)"

fun receiveErrors :: "'msg received list \<Rightarrow> string list" where
  "receiveErrors [] = []"
| "receiveErrors (r # rs) = (case r of RecvError err \<Rightarrow> err # receiveErrors rs | _ \<Rightarrow> receiveErrors rs)"

subsection \<open>A sample environment for concrete runs\<close>

fun sample_fields :: "string \<Rightarrow> string \<Rightarrow> string list" where
  "sample_fields cur [] = (if cur = [] then [] else [cur])"
| "sample_fields cur (c # cs) =
     (if c = CHR '' '' then (if cur = [] then sample_fields [] cs else cur # sample_fields [] cs)
      else sample_fields (cur @ [c]) cs)"

definition sample_env :: env where
  "sample_env =
     \<lparr>ToBool = (\<lambda>v. v = VBool True),
      ToInt = (\<lambda>v. case v of VInt n \<Rightarrow> n
                 | VStr s \<Rightarrow> (case ParseInt s 64 of Inr n \<Rightarrow> n | Inl e \<Rightarrow> 0)
                 | _ \<Rightarrow> 0),
      ToString = (\<lambda>v. case v of VStr s \<Rightarrow> s | _ \<Rightarrow> []),
      ToStringSlice = (\<lambda>v. case v of
                   VList vs \<Rightarrow> map (\<lambda>u. case u of VStr s \<Rightarrow> s | _ \<Rightarrow> []) vs
                 | _ \<Rightarrow> []),
      Fields = sample_fields [],
      regexpCompile = (\<lambda>re. if re = ''('' then Some ''missing closing )'' else None),
      ReadInConfig = (\<lambda>p. Inl ''no such file or directory''),
      syslogDial = (\<lambda>network address priority tag. Inr 7),
      OpenFile = (\<lambda>path mode. None),
      Chmod = (\<lambda>path mode. None),
      Lookup = (\<lambda>uname. Inr ''0''),
      LookupGroup = (\<lambda>gname. Inr ''0''),
      Chown = (\<lambda>path uid gid. None),
      NewNetlinkClient = (\<lambda>n. None)\<rparr>"

definition sample_config :: "(string \<times> cfgval) list \<Rightarrow> viper" where
  "sample_config kvs = config_defaults\<lparr>settings := map_of kvs\<rparr>"

definition sample_NewAuditMarshaller ::
    "audit_writer \<Rightarrow> bool \<Rightarrow> bool \<Rightarrow> int \<Rightarrow> audit_filter list \<Rightarrow> audit_filter list" where
  "sample_NewAuditMarshaller writer tracking logOutOfOrder maxOutOfOrder filters = filters"

definition sample_Consume ::
    "string \<Rightarrow> audit_filter list \<Rightarrow> world \<Rightarrow> (process_end + audit_filter list) \<times> world" where
  "sample_Consume msg marshaller w = (Inr marshaller, w)"

section \<open>Properties\<close>

lemma addRules_recording:
  "fst (snd (addRules env (recordingExecutor answer) i vs h w))
     = snd (spec_run answer h (map (\<lambda>v. (''auditctl'', Fields env v)) (filter (\<lambda>v. v \<noteq> []) vs)))
   \<and> (fst (addRules env (recordingExecutor answer) i vs h w) = None
        \<longleftrightarrow> fst (spec_run answer h (map (\<lambda>v. (''auditctl'', Fields env v)) (filter (\<lambda>v. v \<noteq> []) vs))) = None)"
proof (induction vs arbitrary: i h w)
  case Nil
  show ?case by simp
next
  case (Cons v vs)
  show ?case
  proof (cases "v = []")
    case True
    then show ?thesis using Cons.IH by simp
  next
    case False
    show ?thesis
    proof (cases "answer (h @ [(''auditctl'', Fields env v)])")
      case None
      then show ?thesis using False Cons.IH by (simp add: recordingExecutor_def)
    next
      case (Some err)
      then show ?thesis using False by (simp add: recordingExecutor_def)
    qed
  qed
qed

text \<open>
  Claim C3. With an executor that records every command it is given, the commands that
  setRules runs are: \<^verbatim>\<open>auditctl -D\<close> first, then \<^verbatim>\<open>auditctl\<close> once for each
  non-empty rule, in the order of the configuration, with the fields of the rule as
  arguments, up to and including the first command that fails and none after it. An error
  from any of these commands makes setRules return an error; setRules returns no error
  exactly when no command failed and the list of rules is not empty.
\<close>

theorem setRules_invocations:
  "fst (snd (setRules env config (recordingExecutor answer) h w))
     = snd (spec_run answer h (spec_calls env (GetStringSlice env config ''rules'')))
   \<and> (fst (spec_run answer h (spec_calls env (GetStringSlice env config ''rules''))) \<noteq> None
        \<longrightarrow> fst (setRules env config (recordingExecutor answer) h w) \<noteq> None)
   \<and> (fst (setRules env config (recordingExecutor answer) h w) = None
        \<longleftrightarrow> fst (spec_run answer h (spec_calls env (GetStringSlice env config ''rules''))) = None
            \<and> GetStringSlice env config ''rules'' \<noteq> [])"
proof (cases "answer (h @ [(''auditctl'', [''-D''])])")
  case (Some err)
  then show ?thesis by (simp add: setRules_def spec_calls_def recordingExecutor_def)
next
  case None
  show ?thesis
  proof (cases "GetStringSlice env config ''rules'' = []")
    case True
    then show ?thesis using None by (simp add: setRules_def spec_calls_def recordingExecutor_def)
  next
    case False
    have e: "recordingExecutor answer ''auditctl'' [''-D''] h = (None, h @ [(''auditctl'', [''-D''])])"
      using None by (simp add: recordingExecutor_def)
    show ?thesis
      using False None addRules_recording [of env answer 0 "GetStringSlice env config ''rules''" "h @ [(''auditctl'', [''-D''])]"]
      by (simp add: setRules_def spec_calls_def e Let_def)
  qed
qed


lemma createSyslogOutput_world: "snd (createSyslogOutput env config w) = w"
  by (simp add: createSyslogOutput_def Let_def split: sum.splits)

lemma createFileOutput_world: "snd (createFileOutput env config w) = w"
  by (simp add: createFileOutput_def Let_def split: sum.splits option.splits)

lemma createStdOutOutput_world:
  "createStdOutOutput env config w = (r, w') \<Longrightarrow>
     (case r of Inl err \<Rightarrow> w' = w | Inr wr \<Rightarrow> w' = w\<lparr>var_l := (var_l w)\<lparr>lg_out := Stderr\<rparr>\<rparr>)"
  by (auto simp: createStdOutOutput_def Let_def SetOutput_def split: if_splits)

lemma createOutput_cases:
  "(createOutput env config w = (Inr wr, w')
      \<longleftrightarrow> enabledCount env config = 1 \<and> enabledConstructor env config w = (Inr wr, w'))
   \<and> (enabledCount env config \<noteq> 1 \<longrightarrow> (\<exists>err. fst (createOutput env config w) = Inl err))"
proof -
  obtain r1 w1 where s: "createSyslogOutput env config w = (r1, w1)" by force
  obtain r2 w2 where f: "createFileOutput env config w = (r2, w2)" by force
  obtain r3 w3 where o: "createStdOutOutput env config w = (r3, w3)" by force
  have w1: "w1 = w" using createSyslogOutput_world [of env config w] s by simp
  have w2: "w2 = w" using createFileOutput_world [of env config w] f by simp
  obtain r3' w3' where o': "createStdOutOutput env config w = (r3', w3')" by force
  show ?thesis
    unfolding createOutput_def enabledCount_def enabledConstructor_def
    using s f o w1 w2
    by (cases "GetBool env config ''output.syslog.enabled''";
        cases "GetBool env config ''output.file.enabled''";
        cases "GetBool env config ''output.stdout.enabled''";
        cases r1; cases r2; cases r3) auto
qed

text \<open>
  Claim C1. createOutput returns a writer exactly when one of the three outputs is
  enabled and the constructor of that output returns this writer; when none or more than
  one is enabled it returns an error.
\<close>

theorem createOutput_exactly_one:
  "(createOutput env config w = (Inr wr, w')
      \<longleftrightarrow> enabledCount env config = 1 \<and> enabledConstructor env config w = (Inr wr, w'))
   \<and> (enabledCount env config \<noteq> 1 \<longrightarrow> (\<exists>err. fst (createOutput env config w) = Inl err))"
  by (rule createOutput_cases)

text \<open>
  Claim C6. Each of the three constructors returns its error about attempts when the
  configured number is below 1. When the file does not set \<^verbatim>\<open>output.syslog.attempts\<close>,
  the loaded configuration holds the default, the string "3"; where the conversion reads
  that string as 3, the syslog constructor passes the check and builds its writer with 3
  attempts once the connection is open.
\<close>

theorem attempts_at_least_one:
  "(GetInt env config ''output.syslog.attempts'' < 1 \<longrightarrow>
      createSyslogOutput env config w =
        (Inl (Error ''Output attempts for syslog must be at least 1, %v provided''
                [EInt (GetInt env config ''output.syslog.attempts'')]), w))
   \<and> (GetInt env config ''output.file.attempts'' < 1 \<longrightarrow>
      createFileOutput env config w =
        (Inl (Error ''Output attempts for file must be at least 1, %v provided''
                [EInt (GetInt env config ''output.file.attempts'')]), w))
   \<and> (GetInt env config ''output.stdout.attempts'' < 1 \<longrightarrow>
      createStdOutOutput env config w =
        (Inl (Error ''Output attempts for stdout must be at least 1, %v provided''
                [EInt (GetInt env config ''output.stdout.attempts'')]), w))
   \<and> (ReadInConfig env configFile = Inr file \<and> file ''output.syslog.attempts'' = None
        \<and> ToInt env (VStr ''3'') = 3 \<longrightarrow>
        (\<exists>loaded w1. loadConfig env configFile w0 = (Inr loaded, w1)
           \<and> GetInt env loaded ''output.syslog.attempts'' = 3
           \<and> (\<forall>h. syslogDial env (GetString env loaded ''output.syslog.network'')
                      (GetString env loaded ''output.syslog.address'')
                      (GetInt env loaded ''output.syslog.priority'')
                      (GetString env loaded ''output.syslog.tag'') = Inr h \<longrightarrow>
                 createSyslogOutput env loaded w =
                   (Inr (NewAuditWriter (SyslogWriter h) 3), w))))"
  by (simp add: createSyslogOutput_def createFileOutput_def createStdOutOutput_def
      loadConfig_def Let_def GetInt_def Get_def config_defaults_def SetDefault_def viper_New_def)

text \<open>
  Claim C10. createSyslogOutput and createFileOutput return the world they were
  given: both loggers, the handles of package logger and the output are untouched.
  createStdOutOutput never touches the error logger; when it builds the writer (attempts
  at least 1) the only change is that the info logger now writes to stderr, and when it
  refuses it changes nothing. So a successful createOutput with stdout enabled leaves the
  info logger on stderr and everything else as it was, and without stdout enabled
  createOutput changes nothing.
\<close>

theorem constructors_logger_frame:
  "snd (createSyslogOutput env config w) = w
   \<and> snd (createFileOutput env config w) = w
   \<and> var_el (snd (createStdOutOutput env config w)) = var_el w
   \<and> snd (createStdOutOutput env config w) =
       (if 1 \<le> GetInt env config ''output.stdout.attempts''
        then w\<lparr>var_l := (var_l w)\<lparr>lg_out := Stderr\<rparr>\<rparr> else w)
   \<and> (GetBool env config ''output.stdout.enabled'' \<and> createOutput env config w = (Inr wr, w')
        \<longrightarrow> w' = w\<lparr>var_l := (var_l w)\<lparr>lg_out := Stderr\<rparr>\<rparr>)
   \<and> (\<not> GetBool env config ''output.stdout.enabled'' \<longrightarrow> snd (createOutput env config w) = w)
   \<and> (stdOut w = Some PtrL \<and> sysLog w = None \<and> 1 \<le> GetInt env config ''output.stdout.attempts''
        \<longrightarrow> events (logger_Info format a (snd (createStdOutOutput env config w)))
              = events w @ [Printed Stderr (lg_flags (var_l w)) format a])"
proof -
  have a: "snd (createSyslogOutput env config w) = w" by (rule createSyslogOutput_world)
  have b: "snd (createFileOutput env config w) = w" by (rule createFileOutput_world)
  have c: "snd (createStdOutOutput env config w) =
       (if 1 \<le> GetInt env config ''output.stdout.attempts''
        then w\<lparr>var_l := (var_l w)\<lparr>lg_out := Stderr\<rparr>\<rparr> else w)"
    by (simp add: createStdOutOutput_def Let_def SetOutput_def)
  have d: "var_el (snd (createStdOutOutput env config w)) = var_el w"
    by (simp add: c)
  have e: "GetBool env config ''output.stdout.enabled'' \<and> createOutput env config w = (Inr wr, w')
        \<longrightarrow> w' = w\<lparr>var_l := (var_l w)\<lparr>lg_out := Stderr\<rparr>\<rparr>"
  proof
    assume h: "GetBool env config ''output.stdout.enabled'' \<and> createOutput env config w = (Inr wr, w')"
    then have "enabledCount env config = 1 \<and> enabledConstructor env config w = (Inr wr, w')"
      using createOutput_cases [of env config w wr w'] by simp
    then have "createStdOutOutput env config w = (Inr wr, w')"
      using h by (auto simp: enabledCount_def enabledConstructor_def split: if_splits)
    then show "w' = w\<lparr>var_l := (var_l w)\<lparr>lg_out := Stderr\<rparr>\<rparr>"
      using createStdOutOutput_world [of env config w "Inr wr" w'] by simp
  qed
  have f: "\<not> GetBool env config ''output.stdout.enabled'' \<longrightarrow> snd (createOutput env config w) = w"
  proof
    assume n: "\<not> GetBool env config ''output.stdout.enabled''"
    obtain r1 w1 where s: "createSyslogOutput env config w = (r1, w1)" by force
    obtain r2 w2 where f: "createFileOutput env config w = (r2, w2)" by force
    have w1: "w1 = w" using a s by simp
    have w2: "w2 = w" using b f by simp
    show "snd (createOutput env config w) = w"
      unfolding createOutput_def using n s f w1 w2
      by (cases "GetBool env config ''output.syslog.enabled''";
          cases "GetBool env config ''output.file.enabled''"; cases r1; cases r2) auto
  qed
  have g: "stdOut w = Some PtrL \<and> sysLog w = None \<and> 1 \<le> GetInt env config ''output.stdout.attempts''
        \<longrightarrow> events (logger_Info format a (snd (createStdOutOutput env config w)))
              = events w @ [Printed Stderr (lg_flags (var_l w)) format a]"
    by (simp add: c logger_Info_def Printf_def emit_def)
  show ?thesis using a b c d e f g by blast
qed

lemma setField_invalid:
  "invalidField env (k, v) \<Longrightarrow> \<exists>p. fst (setField env i k v af w) = Inl p"
  by (auto simp: invalidField_def setField_def isl_def split: cfgval.splits sum.splits option.splits)

lemma rangeFields_invalid:
  "list_ex (invalidField env) kvs \<Longrightarrow> \<exists>p. fst (rangeFields env i kvs af w) = Inl p"
proof (induction kvs arbitrary: af w)
  case Nil
  then show ?case by simp
next
  case (Cons kv kvs)
  obtain k v where kv: "kv = (k, v)" by (cases kv)
  obtain r w' where s: "setField env i k v af w = (r, w')" by force
  show ?case
  proof (cases r)
    case (Inl p)
    then show ?thesis using kv s by simp
  next
    case (Inr af')
    then have "\<not> invalidField env (k, v)"
      using setField_invalid [of env k v i af w] s by auto
    then have "list_ex (invalidField env) kvs" using Cons.prems kv by simp
    then show ?thesis using Cons.IH [of af' w'] kv s Inr by simp
  qed
qed

lemma rangeFilters_invalid:
  "list_ex (invalidFilter env) ft \<Longrightarrow> \<exists>p. fst (rangeFilters env i ft filters w) = Inl p"
proof (induction ft arbitrary: i filters w)
  case Nil
  then show ?case by simp
next
  case (Cons f ft)
  show ?case
  proof (cases "\<exists>kvs. f = VMap kvs")
    case False
    then show ?thesis by (cases f) auto
  next
    case True
    then obtain kvs where f: "f = VMap kvs" by blast
    obtain r w' where s: "rangeFields env i kvs zero_filter w = (r, w')" by force
    show ?thesis
    proof (cases r)
      case (Inl p)
      then show ?thesis using f s by simp
    next
      case (Inr af)
      then have "\<not> list_ex (invalidField env) kvs"
        using rangeFields_invalid [of env kvs i zero_filter w] s by auto
      moreover have "invalidFilter env f \<longleftrightarrow> list_ex (invalidField env) kvs"
        using f by (simp add: invalidFilter_def)
      ultimately have rest: "list_ex (invalidFilter env) ft"
        using Cons.prems by simp
      show ?thesis
      proof (cases "Regex af")
        case None
        then show ?thesis using f s Inr by simp
      next
        case (Some re)
        then show ?thesis using f s Inr Cons.IH [OF rest] by simp
      qed
    qed
  qed
qed

lemma createFilters_invalid:
  assumes "Get config ''filters'' = VList ft" and "list_ex (invalidFilter env) ft"
  shows "\<exists>p. fst (createFilters env config w) = Inl p"
  using assms rangeFilters_invalid [of env ft 0 "[]" w] by (simp add: createFilters_def)

lemma loadConfig_Get:
  "loadConfig env configFile w = (Inr config, w') \<Longrightarrow>
     \<exists>file. ReadInConfig env configFile = Inr file \<and> config = config_defaults\<lparr>settings := file\<rparr>"
  by (auto simp: loadConfig_def Let_def split: sum.splits)

lemma main_running:
  assumes "fst (main env lExec NAM Consume configFile recvs x w0) = Inr m"
  shows "\<exists>file w fs. ReadInConfig env configFile = Inr file
           \<and> fst (createFilters env (config_defaults\<lparr>settings := file\<rparr>) w) = Inr fs"
proof -
  let ?w1 = "AuditLoggerNew (Some PtrL) (Some PtrEL) None w0"
  from assms have ne: "configFile \<noteq> []" by (auto simp: main_def Let_def)
  obtain r2 w2 where l: "loadConfig env configFile ?w1 = (r2, w2)" by force
  from assms ne l obtain config where r2: "r2 = Inr config"
    by (cases r2) (auto simp: main_def Let_def)
  obtain fl where fl: "ReadInConfig env configFile = Inr fl"
    and config: "config = config_defaults\<lparr>settings := fl\<rparr>"
    using loadConfig_Get l r2 by blast
  obtain r3 w3 where c: "createOutput env config w2 = (r3, w3)" by force
  from assms ne l r2 c obtain writer where r3: "r3 = Inr writer"
    by (cases r3) (auto simp: main_def Let_def)
  obtain r4 x' w4 where s: "setRules env config lExec x w3 = (r4, x', w4)"
    by (metis prod_cases3)
  from assms ne l r2 c r3 s have r4: "r4 = None"
    by (cases r4) (auto simp: main_def Let_def)
  from assms ne l r2 c r3 s r4 have n: "NewNetlinkClient env (GetInt env config ''socket_buffer.receive'') = None"
    by (cases "NewNetlinkClient env (GetInt env config ''socket_buffer.receive'')") (auto simp: main_def Let_def)
  obtain r5 w5 where f: "createFilters env config w4 = (r5, w5)" by force
  from assms ne l r2 c r3 s r4 n f obtain fs where "r5 = Inr fs"
    by (cases r5) (auto simp: main_def Let_def)
  then have "ReadInConfig env configFile = Inr fl
      \<and> fst (createFilters env (config_defaults\<lparr>settings := fl\<rparr>) w4) = Inr fs"
    using fl config f by simp
  then show ?thesis by blast
qed

text \<open>
  Claim C2. When the list of filters holds an invalid entry (one that is not a map, or
  a map with a \<^verbatim>\<open>message_type\<close>, \<^verbatim>\<open>regex\<close> or \<^verbatim>\<open>syscall\<close> of an unsupported shape
  or that does not parse or compile), createFilters panics instead of returning filters,
  and a run of main on a file with such a list always ends the process: it never enters
  the receive loop.
\<close>

theorem invalid_filter_fatal:
  assumes "list_ex (invalidFilter env) ft"
  shows "(Get config ''filters'' = VList ft \<longrightarrow> (\<exists>p. fst (createFilters env config w) = Inl p))
       \<and> (ReadInConfig env configFile = Inr file \<and> file ''filters'' = Some (VList ft) \<longrightarrow>
            (\<exists>t. fst (main env lExec NAM Consume configFile recvs x w0) = Inl t))"
proof (intro conjI impI)
  assume "Get config ''filters'' = VList ft"
  then show "\<exists>p. fst (createFilters env config w) = Inl p"
    using assms createFilters_invalid by blast
next
  assume a: "ReadInConfig env configFile = Inr file \<and> file ''filters'' = Some (VList ft)"
  show "\<exists>t. fst (main env lExec NAM Consume configFile recvs x w0) = Inl t"
  proof (cases "fst (main env lExec NAM Consume configFile recvs x w0)")
    case (Inl t)
    then show ?thesis by blast
  next
    case (Inr m)
    from main_running [OF Inr]
    obtain file' w9 fs where "ReadInConfig env configFile = Inr file'"
      and fs: "fst (createFilters env (config_defaults\<lparr>settings := file'\<rparr>) w9) = Inr fs"
      by auto
    then have "file' = file" using a by simp
    then have "Get (config_defaults\<lparr>settings := file'\<rparr>) ''filters'' = VList ft"
      using a by (simp add: Get_def)
    then have "\<exists>p. fst (createFilters env (config_defaults\<lparr>settings := file'\<rparr>) w9) = Inl p"
      using assms createFilters_invalid by blast
    then show ?thesis using fs by simp
  qed
qed

lemma foldl_decimal_mono: "n \<le> foldl (\<lambda>n c. 10 * n + digitVal c) n s"
proof (induction s arbitrary: n)
  case Nil
  show ?case by simp
next
  case (Cons c s)
  have "n \<le> 10 * n + digitVal c" by simp
  also have "\<dots> \<le> foldl (\<lambda>n c. 10 * n + digitVal c) (10 * n + digitVal c) s" by (rule Cons.IH)
  finally show ?case by simp
qed

lemma scanUint_decimal:
  "list_all isDigit s \<Longrightarrow> foldl (\<lambda>n c. 10 * n + digitVal c) n s < 2 ^ b \<Longrightarrow>
     scanUint b n s = Inr (foldl (\<lambda>n c. 10 * n + digitVal c) n s)"
proof (induction s arbitrary: n)
  case Nil
  show ?case by simp
next
  case (Cons c s)
  have "10 * n + digitVal c \<le> foldl (\<lambda>n c. 10 * n + digitVal c) (10 * n + digitVal c) s"
    by (rule foldl_decimal_mono)
  then have "10 * n + digitVal c < 2 ^ b" using Cons.prems(2) by simp
  then show ?case using Cons by simp
qed

lemma ParseUint_decimal:
  "decimalString s \<Longrightarrow> decimalValue s < 2 ^ b \<Longrightarrow> ParseUint s b = Inr (decimalValue s)"
  by (simp add: ParseUint_def decimalString_def decimalValue_def scanUint_decimal)

lemma scanUint_Inr:
  "scanUint b n s = Inr v \<Longrightarrow>
     list_all isDigit s \<and> v = foldl (\<lambda>n c. 10 * n + digitVal c) n s \<and> (s \<noteq> [] \<longrightarrow> v < 2 ^ b)"
proof (induction s arbitrary: n)
  case Nil
  then show ?case by simp
next
  case (Cons c s)
  from Cons.prems have d: "isDigit c" and r: "10 * n + digitVal c < 2 ^ b"
    and rest: "scanUint b (10 * n + digitVal c) s = Inr v"
    by (auto split: if_splits)
  from Cons.IH [OF rest] have ih: "list_all isDigit s"
    "v = foldl (\<lambda>n c. 10 * n + digitVal c) (10 * n + digitVal c) s" "s \<noteq> [] \<longrightarrow> v < 2 ^ b"
    by auto
  have "v < 2 ^ b" using ih(2,3) r by (cases s) auto
  then show ?case using d ih by simp
qed

lemma ParseUint_Inr:
  "ParseUint s b = Inr v \<longleftrightarrow> decimalString s \<and> decimalValue s < 2 ^ b \<and> v = decimalValue s"
proof
  assume "ParseUint s b = Inr v"
  then have ne: "s \<noteq> []" and sc: "scanUint b 0 s = Inr v"
    by (auto simp: ParseUint_def split: if_splits)
  from scanUint_Inr [OF sc] ne show "decimalString s \<and> decimalValue s < 2 ^ b \<and> v = decimalValue s"
    by (simp add: decimalString_def decimalValue_def)
next
  assume "decimalString s \<and> decimalValue s < 2 ^ b \<and> v = decimalValue s"
  then show "ParseUint s b = Inr v" by (simp add: ParseUint_decimal)
qed

lemma setField_accepted:
  assumes "\<not> invalidField env (k, v)"
  shows "\<exists>af'. setField env i k v af w = (Inr af', w)
     \<and> MessageType af' = (if k = VStr ''message_type'' then mtWord v else MessageType af)
     \<and> Syscall af' = (if k = VStr ''syscall'' then syscallText v else Syscall af)
     \<and> Regex af' = (if k = VStr ''regex'' then (case v of VStr re \<Rightarrow> Some (Regexp re) | _ \<Rightarrow> None)
                     else Regex af)"
proof -
  have mt: "k = VStr ''message_type'' \<Longrightarrow> ?thesis"
  proof -
    assume k: "k = VStr ''message_type''"
    show ?thesis
    proof (cases v)
      case (VStr s)
      then obtain fv where p: "ParseUint s 64 = Inr fv"
        using assms k by (cases "ParseUint s 64") (auto simp: invalidField_def)
      then have "fv = decimalValue s" by (simp add: ParseUint_Inr)
      then show ?thesis using k VStr p
        by (simp add: setField_def mtWord_def messageTypeValue_def)
    next
      case (VInt n)
      then show ?thesis using k
        by (simp add: setField_def mtWord_def messageTypeValue_def)
    qed (use assms k in \<open>auto simp: invalidField_def\<close>)
  qed
  have re: "k = VStr ''regex'' \<Longrightarrow> ?thesis"
    using assms by (cases v) (auto simp: invalidField_def setField_def)
  have sc: "k = VStr ''syscall'' \<Longrightarrow> ?thesis"
    using assms by (cases v) (auto simp: invalidField_def setField_def syscallText_def)
  have other: "k \<noteq> VStr ''message_type'' \<Longrightarrow> k \<noteq> VStr ''regex'' \<Longrightarrow> k \<noteq> VStr ''syscall'' \<Longrightarrow> ?thesis"
    by (simp add: setField_def)
  show ?thesis using mt re sc other by blast
qed

lemma rangeFields_accepted:
  assumes "distinct (map fst kvs)" and "\<not> list_ex (invalidField env) kvs"
  shows "\<exists>af'. rangeFields env i kvs af w = (Inr af', w)
     \<and> MessageType af' = (case map_of kvs (VStr ''message_type'') of
                             Some v \<Rightarrow> mtWord v | None \<Rightarrow> MessageType af)
     \<and> Syscall af' = (case map_of kvs (VStr ''syscall'') of
                         Some v \<Rightarrow> syscallText v | None \<Rightarrow> Syscall af)
     \<and> Regex af' = (case map_of kvs (VStr ''regex'') of
                       Some v \<Rightarrow> (case v of VStr re \<Rightarrow> Some (Regexp re) | _ \<Rightarrow> None)
                     | None \<Rightarrow> Regex af)"
  using assms
proof (induction kvs arbitrary: af)
  case Nil
  show ?case by simp
next
  case (Cons kv kvs)
  obtain k v where kv: "kv = (k, v)" by (cases kv)
  have ok: "\<not> invalidField env (k, v)" and rest: "\<not> list_ex (invalidField env) kvs"
    and d: "distinct (map fst kvs)" and fresh: "map_of kvs k = None"
    using Cons.prems kv by (auto simp: map_of_eq_None_iff)
  from setField_accepted [OF ok, of i af w]
  obtain af1 where s: "setField env i k v af w = (Inr af1, w)"
    and m1: "MessageType af1 = (if k = VStr ''message_type'' then mtWord v else MessageType af)"
    and s1: "Syscall af1 = (if k = VStr ''syscall'' then syscallText v else Syscall af)"
    and r1: "Regex af1 = (if k = VStr ''regex'' then (case v of VStr re \<Rightarrow> Some (Regexp re) | _ \<Rightarrow> None)
                     else Regex af)"
    by blast
  from Cons.IH [OF d rest, of af1]
  obtain af' where r: "rangeFields env i kvs af1 w = (Inr af', w)"
    and m2: "MessageType af' = (case map_of kvs (VStr ''message_type'') of
                             Some v \<Rightarrow> mtWord v | None \<Rightarrow> MessageType af1)"
    and s2: "Syscall af' = (case map_of kvs (VStr ''syscall'') of
                         Some v \<Rightarrow> syscallText v | None \<Rightarrow> Syscall af1)"
    and r2: "Regex af' = (case map_of kvs (VStr ''regex'') of
                       Some v \<Rightarrow> (case v of VStr re \<Rightarrow> Some (Regexp re) | _ \<Rightarrow> None)
                     | None \<Rightarrow> Regex af1)"
    by blast
  have a: "rangeFields env i (kv # kvs) af w = (Inr af', w)" using kv s r by simp
  have b: "MessageType af' = (case map_of (kv # kvs) (VStr ''message_type'') of
                             Some v \<Rightarrow> mtWord v | None \<Rightarrow> MessageType af)"
    using kv m1 m2 fresh by (auto split: option.splits)
  have c: "Syscall af' = (case map_of (kv # kvs) (VStr ''syscall'') of
                         Some v \<Rightarrow> syscallText v | None \<Rightarrow> Syscall af)"
    using kv s1 s2 fresh by (auto split: option.splits)
  have e: "Regex af' = (case map_of (kv # kvs) (VStr ''regex'') of
                       Some v \<Rightarrow> (case v of VStr re \<Rightarrow> Some (Regexp re) | _ \<Rightarrow> None)
                     | None \<Rightarrow> Regex af)"
    using kv r1 r2 fresh by (auto split: option.splits)
  show ?case using a b c e by blast
qed

lemma accepted_not_invalid:
  assumes "acceptedFilter env kvs"
  shows "\<not> list_ex (invalidField env) kvs"
proof
  assume "list_ex (invalidField env) kvs"
  then obtain k v where m: "(k, v) \<in> set kvs" and i: "invalidField env (k, v)"
    by (auto simp: list_ex_iff)
  have d: "distinct (map fst kvs)" using assms by (simp add: acceptedFilter_def)
  then have kv: "map_of kvs k = Some v" using m by simp
  from i have "k = VStr ''message_type'' \<or> k = VStr ''regex'' \<or> k = VStr ''syscall''"
    by (auto simp: invalidField_def)
  then show False
  proof (elim disjE)
    assume k: "k = VStr ''message_type''"
    from assms have "case map_of kvs (VStr ''message_type'') of
           Some (VInt n) \<Rightarrow> True
         | Some (VStr s) \<Rightarrow> decimalString s \<and> decimalValue s < 2 ^ 64
         | _ \<Rightarrow> False"
      by (simp add: acceptedFilter_def)
    then have "case v of VInt n \<Rightarrow> True
         | VStr s \<Rightarrow> decimalString s \<and> decimalValue s < 2 ^ 64 | _ \<Rightarrow> False"
      using kv k by simp
    then show False using i k
      by (cases v) (auto simp: invalidField_def ParseUint_decimal)
  next
    assume k: "k = VStr ''regex''"
    from assms have "case map_of kvs (VStr ''regex'') of
           Some (VStr re) \<Rightarrow> regexpCompile env re = None | _ \<Rightarrow> False"
      by (simp add: acceptedFilter_def)
    then have "case v of VStr re \<Rightarrow> regexpCompile env re = None | _ \<Rightarrow> False"
      using kv k by simp
    then show False using i k by (cases v) (auto simp: invalidField_def)
  next
    assume k: "k = VStr ''syscall''"
    from assms have "case map_of kvs (VStr ''syscall'') of
           Some (VInt n) \<Rightarrow> True | Some (VStr s) \<Rightarrow> True | _ \<Rightarrow> False"
      by (simp add: acceptedFilter_def)
    then have "case v of VInt n \<Rightarrow> True | VStr s \<Rightarrow> True | _ \<Rightarrow> False"
      using kv k by simp
    then show False using i k by (cases v) (auto simp: invalidField_def)
  qed
qed

lemma rangeFields_normalized:
  assumes "acceptedFilter env kvs"
  shows "rangeFields env i kvs zero_filter w = (Inr (normalized kvs), w)
       \<and> (\<exists>re. Regex (normalized kvs) = Some (Regexp re))"
proof -
  have d: "distinct (map fst kvs)" using assms by (simp add: acceptedFilter_def)
  from rangeFields_accepted [OF d accepted_not_invalid [OF assms], of i zero_filter w]
  obtain af' where r: "rangeFields env i kvs zero_filter w = (Inr af', w)"
    and m: "MessageType af' = (case map_of kvs (VStr ''message_type'') of
                             Some v \<Rightarrow> mtWord v | None \<Rightarrow> MessageType zero_filter)"
    and s: "Syscall af' = (case map_of kvs (VStr ''syscall'') of
                         Some v \<Rightarrow> syscallText v | None \<Rightarrow> Syscall zero_filter)"
    and e: "Regex af' = (case map_of kvs (VStr ''regex'') of
                       Some v \<Rightarrow> (case v of VStr re \<Rightarrow> Some (Regexp re) | _ \<Rightarrow> None)
                     | None \<Rightarrow> Regex zero_filter)"
    by blast
  have "af' = normalized kvs"
    using m s e
    by (intro audit_filter.equality)
       (auto simp: normalized_def zero_filter_def mtWord_def split: option.splits cfgval.splits)
  moreover have "\<exists>re. Regex (normalized kvs) = Some (Regexp re)"
  proof -
    from assms have "case map_of kvs (VStr ''regex'') of
           Some (VStr re) \<Rightarrow> regexpCompile env re = None | _ \<Rightarrow> False"
      by (simp add: acceptedFilter_def)
    then show ?thesis
      by (auto simp: normalized_def split: option.splits cfgval.splits)
  qed
  ultimately show ?thesis using r by simp
qed

lemma rangeFilters_normalized:
  "list_all (acceptedFilter env) kvss \<Longrightarrow>
     fst (rangeFilters env i (map VMap kvss) filters w) = Inr (filters @ map normalized kvss)"
proof (induction kvss arbitrary: i filters w)
  case Nil
  show ?case by simp
next
  case (Cons kvs kvss)
  have a: "acceptedFilter env kvs" and rest: "list_all (acceptedFilter env) kvss"
    using Cons.prems by auto
  from rangeFields_normalized [OF a, of i w]
  obtain re where r: "rangeFields env i kvs zero_filter w = (Inr (normalized kvs), w)"
    and e: "Regex (normalized kvs) = Some (Regexp re)" by blast
  show ?case using r e Cons.IH [OF rest] by simp
qed

text \<open>
  Claim C5. When every entry of the filters list is a map with distinct keys that holds a
  \<^verbatim>\<open>regex\<close> string that compiles, a \<^verbatim>\<open>message_type\<close> given as an int or as a string
  of decimal digits whose value is below \<open>2 ^ 64\<close>, and a \<^verbatim>\<open>syscall\<close> given as a
  string or an int, createFilters returns one filter for each entry, in order.
  MessageType is the given number reduced modulo \<open>2 ^ 16\<close>, hence the number itself when
  it lies between 0 and 65535; Syscall is the given string, or the decimal text of the
  given int.
\<close>

theorem createFilters_normalizes:
  assumes "Get config ''filters'' = VList (map VMap kvss)"
    and "list_all (acceptedFilter env) kvss"
  shows "fst (createFilters env config w) = Inr (map normalized kvss)
       \<and> (\<forall>kvs \<in> set kvss. \<forall>v.
            (map_of kvs (VStr ''message_type'') = Some v \<longrightarrow>
               uint (MessageType (normalized kvs)) = messageTypeValue v mod 65536
             \<and> (0 \<le> messageTypeValue v \<and> messageTypeValue v < 65536 \<longrightarrow>
                  uint (MessageType (normalized kvs)) = messageTypeValue v))
          \<and> (map_of kvs (VStr ''syscall'') = Some v \<longrightarrow>
               Syscall (normalized kvs) = syscallText v))"
proof -
  have "fst (createFilters env config w) = Inr (map normalized kvss)"
    using assms rangeFilters_normalized [of env kvss 0 "[]" w] by (simp add: createFilters_def)
  moreover have "uint (MessageType (normalized kvs)) = messageTypeValue v mod 65536"
    if "map_of kvs (VStr ''message_type'') = Some v" for kvs v
    using that by (simp add: normalized_def uint_word_of_int)
  moreover have "Syscall (normalized kvs) = syscallText v"
    if "map_of kvs (VStr ''syscall'') = Some v" for kvs v
    using that by (simp add: normalized_def)
  ultimately show ?thesis by simp
qed

lemma mainLoop_append:
  "mainLoop Consume (rs1 @ rs2) m w =
     (case mainLoop Consume rs1 m w of
        (Inl t, w') \<Rightarrow> (Inl t, w')
      | (Inr m', w') \<Rightarrow> mainLoop Consume rs2 m' w')"
proof (induction rs1 arbitrary: m w)
  case Nil
  show ?case by simp
next
  case (Cons r rs1)
  show ?case
  proof (cases r)
    case (RecvMsg msg)
    obtain res w' where c: "Consume msg m w = (res, w')" by force
    show ?thesis using RecvMsg c Cons.IH by (cases res) simp_all
  qed (simp_all add: Cons.IH)
qed

lemma mainLoop_only_Consume_ends:
  "fst (mainLoop Consume rs m w) = Inl t \<Longrightarrow>
     \<exists>msg m' w'. RecvMsg msg \<in> set rs \<and> fst (Consume msg m' w') = Inl t"
proof (induction rs arbitrary: m w)
  case Nil
  then show ?case by simp
next
  case (Cons r rs)
  show ?case
  proof (cases r)
    case (RecvError err)
    then show ?thesis using Cons by fastforce
  next
    case RecvNil
    then show ?thesis using Cons by fastforce
  next
    case (RecvMsg msg)
    obtain res w' where c: "Consume msg m w = (res, w')" by force
    show ?thesis
    proof (cases res)
      case (Inl t')
      then have "fst (Consume msg m w) = Inl t" using Cons.prems RecvMsg c by simp
      then show ?thesis using RecvMsg by auto
    next
      case (Inr m')
      then have "fst (mainLoop Consume rs m' w') = Inl t" using Cons.prems RecvMsg c by simp
      from Cons.IH [OF this] show ?thesis by auto
    qed
  qed
qed

lemma mainLoop_skips:
  "\<not> list_ex isMessage rs \<Longrightarrow>
     mainLoop Consume rs m w =
       (Inr m, foldl (\<lambda>w err. logger_Err ''Error during message receive: %+v'' [AStr err] w) w
                 (receiveErrors rs))"
proof (induction rs arbitrary: w)
  case Nil
  show ?case by simp
next
  case (Cons r rs)
  then show ?case by (cases r) (simp_all add: isMessage_def)
qed

text \<open>
  Claim C8. At any iteration that the loop reaches, a receive error leaves the marshaller
  as it is, adds the log line and goes on with the next iteration, and a nil message goes
  on without any change. On results that hold no message the loop is still running, its
  marshaller untouched (Consume is never called), and the world has one log line for each
  error. The loop ends the process only where Consume, called on a received message, does.
  With the loggers as main sets them, the log line goes to the error logger.
\<close>

theorem receive_errors_continue:
  "(mainLoop Consume rs1 m w = (Inr m1, w1) \<longrightarrow>
      mainLoop Consume (rs1 @ RecvError err # rs2) m w =
        mainLoop Consume rs2 m1 (logger_Err ''Error during message receive: %+v'' [AStr err] w1)
    \<and> mainLoop Consume (rs1 @ RecvNil # rs2) m w = mainLoop Consume rs2 m1 w1)
   \<and> (\<not> list_ex isMessage rs \<longrightarrow>
        mainLoop Consume rs m w =
          (Inr m, foldl (\<lambda>w err. logger_Err ''Error during message receive: %+v'' [AStr err] w) w
                    (receiveErrors rs)))
   \<and> (fst (mainLoop Consume rs m w) = Inl t \<longrightarrow>
        (\<exists>msg m' w'. RecvMsg msg \<in> set rs \<and> fst (Consume msg m' w') = Inl t))
   \<and> (sysLog w = None \<and> stdErr w = Some PtrEL \<longrightarrow>
        logger_Err ''Error during message receive: %+v'' [AStr err] w =
          w\<lparr>events := events w @ [Printed (lg_out (var_el w)) (lg_flags (var_el w))
                                     ''Error during message receive: %+v'' [AStr err]]\<rparr>)"
  using mainLoop_skips [of rs Consume m w] mainLoop_only_Consume_ends [of Consume rs m w t]
  by (simp add: mainLoop_append logger_Err_def Printf_def emit_def)


lemma rangeFields_no_regex:
  "\<not> list_ex (invalidField env) kvs \<Longrightarrow> \<not> list_ex (\<lambda>kv. fst kv = VStr ''regex'') kvs \<Longrightarrow>
     \<exists>af'. rangeFields env i kvs af w = (Inr af', w) \<and> Regex af' = Regex af"
proof (induction kvs arbitrary: af)
  case Nil
  show ?case by simp
next
  case (Cons kv kvs)
  obtain k v where kv: "kv = (k, v)" by (cases kv)
  have ok: "\<not> invalidField env (k, v)" and k: "k \<noteq> VStr ''regex''"
    and r1: "\<not> list_ex (invalidField env) kvs"
    and r2: "\<not> list_ex (\<lambda>kv. fst kv = VStr ''regex'') kvs"
    using Cons.prems kv by auto
  from setField_accepted [OF ok, of i af w] k
  obtain af1 where s: "setField env i k v af w = (Inr af1, w)" and e: "Regex af1 = Regex af"
    by auto
  from Cons.IH [OF r1 r2, of af1] show ?case using kv s e by simp
qed

text \<open>
  Claim C4. When the first entry of the filters list is a map without a \<^verbatim>\<open>regex\<close>
  key, all of whose values are valid, createFilters does not return: it panics on the nil
  pointer, with the world as it was.
\<close>

theorem filter_without_regex_panics:
  assumes "Get config ''filters'' = VList (VMap kvs # ft)"
    and "\<not> list_ex (invalidField env) kvs"
    and "\<not> list_ex (\<lambda>kv. fst kv = VStr ''regex'') kvs"
  shows "createFilters env config w = (Inl NilPointerDereference, w)"
proof -
  from rangeFields_no_regex [OF assms(2,3), of 0 zero_filter w]
  obtain af' where "rangeFields env 0 kvs zero_filter w = (Inr af', w)" and "Regex af' = None"
    by (auto simp: zero_filter_def)
  then show ?thesis using assms(1) by (simp add: createFilters_def)
qed

lemma digitVal_digitChar: "d < 10 \<Longrightarrow> digitVal (digitChar d) = d \<and> isDigit (digitChar d)"
  by (simp add: digitVal_def digitChar_def isDigit_def)

lemma decimalValue_snoc: "decimalValue (s @ [c]) = 10 * decimalValue s + digitVal c"
  by (simp add: decimalValue_def)

lemma natToDec_decimal: "decimalString (natToDec n) \<and> decimalValue (natToDec n) = n"
proof (induction n rule: natToDec.induct)
  case (1 n)
  show ?case
  proof (cases "n < 10")
    case True
    then show ?thesis
      using digitVal_digitChar [of n]
      by (subst (1 2) natToDec.simps) (simp add: decimalString_def decimalValue_def)
  next
    case False
    have d: "n mod 10 < 10" by simp
    show ?thesis
      using False "1.IH" digitVal_digitChar [OF d]
      by (subst (1 2) natToDec.simps) (simp add: decimalString_def decimalValue_snoc)
  qed
qed

lemma Itoa_decimal:
  "(0 \<le> n \<longrightarrow> decimalString (Itoa n) \<and> int (decimalValue (Itoa n)) = n)
   \<and> (n < 0 \<longrightarrow> Itoa n = CHR ''-'' # Itoa (- n))"
  by (simp add: Itoa_def natToDec_decimal)

lemma sample_simps:
  "ToBool sample_env = (\<lambda>v. v = VBool True)"
  "ToStringSlice sample_env = (\<lambda>v. case v of
                   VList vs \<Rightarrow> map (\<lambda>u. case u of VStr s \<Rightarrow> s | _ \<Rightarrow> []) vs
                 | _ \<Rightarrow> [])"
  "Fields sample_env = sample_fields []"
  "ToInt sample_env = (\<lambda>v. case v of VInt n \<Rightarrow> n
                 | VStr s \<Rightarrow> (case ParseInt s 64 of Inr n \<Rightarrow> n | Inl e \<Rightarrow> 0)
                 | _ \<Rightarrow> 0)"
  "regexpCompile sample_env = (\<lambda>re. if re = ''('' then Some ''missing closing )'' else None)"
  "ToString sample_env = (\<lambda>v. case v of VStr s \<Rightarrow> s | _ \<Rightarrow> [])"
  "ReadInConfig sample_env = (\<lambda>p. Inl ''no such file or directory'')"
  "syslogDial sample_env = (\<lambda>network address priority tag. Inr 7)"
  "NewNetlinkClient sample_env = (\<lambda>n. None)"
  by (simp_all add: sample_env_def)

theorem setRules_invocations_witness:
  "fst (snd (setRules sample_env
       (sample_config [(''rules'', VList [VStr ''-a always,exit'', VStr '''', VStr ''-w /etc'', VStr ''-w /usr''])])
       (recordingExecutor (\<lambda>h. if length h = 3 then Some ''exit status 1'' else None)) []
       initial_world))
     = [(''auditctl'', [''-D'']), (''auditctl'', [''-a'', ''always,exit'']), (''auditctl'', [''-w'', ''/etc''])]
   \<and> fst (setRules sample_env
       (sample_config [(''rules'', VList [VStr ''-a always,exit'', VStr '''', VStr ''-w /etc'', VStr ''-w /usr''])])
       (recordingExecutor (\<lambda>h. if length h = 3 then Some ''exit status 1'' else None)) []
       initial_world) \<noteq> None"
  using setRules_invocations [of sample_env
       "sample_config [(''rules'', VList [VStr ''-a always,exit'', VStr '''', VStr ''-w /etc'', VStr ''-w /usr''])]"
       "\<lambda>h. if length h = 3 then Some ''exit status 1'' else None" "[]" initial_world]
  by (simp add: spec_calls_def GetStringSlice_def Get_def sample_config_def sample_simps)


theorem createOutput_exactly_one_witness:
  "createOutput sample_env
      (sample_config [(''output.stdout.enabled'', VBool True), (''output.stdout.attempts'', VInt 2)])
      initial_world
     = (Inr \<lparr>aw_sink = OsStdout, aw_attempts = 2\<rparr>,
        initial_world\<lparr>var_l := \<lparr>lg_out = Stderr, lg_flags = 0\<rparr>\<rparr>)
   \<and> (\<exists>err. fst (createOutput sample_env
      (sample_config [(''output.stdout.enabled'', VBool True), (''output.stdout.attempts'', VInt 2),
                      (''output.syslog.enabled'', VBool True), (''output.syslog.attempts'', VInt 2)])
      initial_world) = Inl err)
   \<and> (\<exists>err. fst (createOutput sample_env (sample_config []) initial_world) = Inl err)"
proof -
  let ?c1 = "sample_config [(''output.stdout.enabled'', VBool True), (''output.stdout.attempts'', VInt 2)]"
  let ?c2 = "sample_config [(''output.stdout.enabled'', VBool True), (''output.stdout.attempts'', VInt 2),
                      (''output.syslog.enabled'', VBool True), (''output.syslog.attempts'', VInt 2)]"
  let ?c3 = "sample_config []"
  have n1: "enabledCount sample_env ?c1 = 1"
    by (simp add: enabledCount_def GetBool_def Get_def sample_config_def sample_simps
        config_defaults_def SetDefault_def viper_New_def)
  have n2: "enabledCount sample_env ?c2 \<noteq> 1"
    by (simp add: enabledCount_def GetBool_def Get_def sample_config_def sample_simps
        config_defaults_def SetDefault_def viper_New_def)
  have n3: "enabledCount sample_env ?c3 \<noteq> 1"
    by (simp add: enabledCount_def GetBool_def Get_def sample_config_def sample_simps
        config_defaults_def SetDefault_def viper_New_def)
  have e1: "enabledConstructor sample_env ?c1 initial_world
     = (Inr \<lparr>aw_sink = OsStdout, aw_attempts = 2\<rparr>,
        initial_world\<lparr>var_l := \<lparr>lg_out = Stderr, lg_flags = 0\<rparr>\<rparr>)"
    by (simp add: enabledConstructor_def createStdOutOutput_def NewAuditWriter_def SetOutput_def
        GetBool_def GetInt_def Get_def sample_config_def sample_simps initial_world_def
        config_defaults_def SetDefault_def viper_New_def)
  show ?thesis
    using createOutput_exactly_one [of sample_env ?c1 initial_world
            "\<lparr>aw_sink = OsStdout, aw_attempts = 2\<rparr>"
            "initial_world\<lparr>var_l := \<lparr>lg_out = Stderr, lg_flags = 0\<rparr>\<rparr>"]
          createOutput_exactly_one [of sample_env ?c2 initial_world]
          createOutput_exactly_one [of sample_env ?c3 initial_world]
          n1 n2 n3 e1
    by blast
qed

theorem attempts_at_least_one_witness:
  "createSyslogOutput sample_env (sample_config [(''output.syslog.attempts'', VInt 0)]) initial_world
     = (Inl (Error ''Output attempts for syslog must be at least 1, %v provided'' [EInt 0]),
        initial_world)
   \<and> createFileOutput sample_env (sample_config [(''output.file.attempts'', VInt 0)]) initial_world
     = (Inl (Error ''Output attempts for file must be at least 1, %v provided'' [EInt 0]),
        initial_world)
   \<and> createStdOutOutput sample_env (sample_config [(''output.stdout.attempts'', VInt (- 1))])
        initial_world
     = (Inl (Error ''Output attempts for stdout must be at least 1, %v provided'' [EInt (- 1)]),
        initial_world)
   \<and> (\<exists>loaded w1.
         loadConfig
           (sample_env\<lparr>ReadInConfig := \<lambda>p. Inr (map_of [(''output.syslog.enabled'', VBool True)])\<rparr>)
           ''/etc/go-audit.yaml'' initial_world = (Inr loaded, w1)
       \<and> GetInt
           (sample_env\<lparr>ReadInConfig := \<lambda>p. Inr (map_of [(''output.syslog.enabled'', VBool True)])\<rparr>)
           loaded ''output.syslog.attempts'' = 3
       \<and> createSyslogOutput
           (sample_env\<lparr>ReadInConfig := \<lambda>p. Inr (map_of [(''output.syslog.enabled'', VBool True)])\<rparr>)
           loaded initial_world
           = (Inr \<lparr>aw_sink = SyslogWriter 7, aw_attempts = 3\<rparr>, initial_world))"
proof -
  let ?e = "sample_env\<lparr>ReadInConfig := \<lambda>p. Inr (map_of [(''output.syslog.enabled'', VBool True)])\<rparr>"
  have three: "ToInt sample_env (VStr ''3'') = 3"
    by (simp add: sample_simps ParseInt_def ParseUint_def isDigit_def digitVal_def)
  have a: "createSyslogOutput sample_env (sample_config [(''output.syslog.attempts'', VInt 0)]) initial_world
     = (Inl (Error ''Output attempts for syslog must be at least 1, %v provided'' [EInt 0]),
        initial_world)"
    using attempts_at_least_one [of sample_env "sample_config [(''output.syslog.attempts'', VInt 0)]"
        initial_world]
    by (simp add: GetInt_def Get_def sample_config_def sample_simps)
  have b: "createFileOutput sample_env (sample_config [(''output.file.attempts'', VInt 0)]) initial_world
     = (Inl (Error ''Output attempts for file must be at least 1, %v provided'' [EInt 0]),
        initial_world)"
    using attempts_at_least_one [of sample_env "sample_config [(''output.file.attempts'', VInt 0)]"
        initial_world]
    by (simp add: GetInt_def Get_def sample_config_def sample_simps)
  have c: "createStdOutOutput sample_env (sample_config [(''output.stdout.attempts'', VInt (- 1))])
        initial_world
     = (Inl (Error ''Output attempts for stdout must be at least 1, %v provided'' [EInt (- 1)]),
        initial_world)"
    using attempts_at_least_one [of sample_env "sample_config [(''output.stdout.attempts'', VInt (- 1))]"
        initial_world]
    by (simp add: GetInt_def Get_def sample_config_def sample_simps)
  have d: "\<exists>loaded w1.
         loadConfig ?e ''/etc/go-audit.yaml'' initial_world = (Inr loaded, w1)
       \<and> GetInt ?e loaded ''output.syslog.attempts'' = 3
       \<and> createSyslogOutput ?e loaded initial_world
           = (Inr \<lparr>aw_sink = SyslogWriter 7, aw_attempts = 3\<rparr>, initial_world)"
    using attempts_at_least_one [of ?e "sample_config []" initial_world "''/etc/go-audit.yaml''"
        "map_of [(''output.syslog.enabled'', VBool True)]" initial_world] three
    by (auto simp: sample_simps NewAuditWriter_def)
  show ?thesis using a b c d by blast
qed

theorem constructors_logger_frame_witness:
  "snd (createSyslogOutput sample_env
          (sample_config [(''output.stdout.enabled'', VBool True), (''output.stdout.attempts'', VInt 2)])
          initial_world) = initial_world
   \<and> snd (createFileOutput sample_env
          (sample_config [(''output.stdout.enabled'', VBool True), (''output.stdout.attempts'', VInt 2)])
          initial_world) = initial_world
   \<and> snd (createStdOutOutput sample_env
          (sample_config [(''output.stdout.enabled'', VBool True), (''output.stdout.attempts'', VInt 2)])
          initial_world) = initial_world\<lparr>var_l := \<lparr>lg_out = Stderr, lg_flags = 0\<rparr>\<rparr>
   \<and> snd (createOutput sample_env (sample_config [(''output.syslog.enabled'', VBool True)])
          initial_world) = initial_world"
  using constructors_logger_frame [of sample_env
          "sample_config [(''output.stdout.enabled'', VBool True), (''output.stdout.attempts'', VInt 2)]"
          initial_world]
        constructors_logger_frame [of sample_env
          "sample_config [(''output.syslog.enabled'', VBool True)]" initial_world]
  by (simp add: GetInt_def GetBool_def Get_def sample_config_def sample_simps initial_world_def
      config_defaults_def SetDefault_def viper_New_def)

theorem invalid_filter_fatal_witness:
  "(\<exists>p. fst (createFilters
            (sample_env\<lparr>ReadInConfig := \<lambda>p. Inr (map_of
               [(''filters'', VList [VMap [(VStr ''message_type'', VList [])]])])\<rparr>)
            (sample_config [(''filters'', VList [VMap [(VStr ''message_type'', VList [])]])])
            initial_world) = Inl p)
   \<and> (\<exists>t. fst (main
         (sample_env\<lparr>ReadInConfig := \<lambda>p. Inr (map_of
            [(''filters'', VList [VMap [(VStr ''message_type'', VList [])]])])\<rparr>)
         (recordingExecutor (\<lambda>h. None)) sample_NewAuditMarshaller sample_Consume
         ''/etc/go-audit.yaml'' [RecvMsg ''type=1300''] [] initial_world) = Inl t)"
  using invalid_filter_fatal [of
      "sample_env\<lparr>ReadInConfig := \<lambda>p. Inr (map_of
            [(''filters'', VList [VMap [(VStr ''message_type'', VList [])]])])\<rparr>"
      "[VMap [(VStr ''message_type'', VList [])]]"
      "sample_config [(''filters'', VList [VMap [(VStr ''message_type'', VList [])]])]"
      initial_world "''/etc/go-audit.yaml''"
      "map_of [(''filters'', VList [VMap [(VStr ''message_type'', VList [])]])]"
      "recordingExecutor (\<lambda>h. None)" sample_NewAuditMarshaller sample_Consume
      "[RecvMsg ''type=1300'']" "[]" initial_world]
  by (simp add: Get_def sample_config_def invalidFilter_def invalidField_def)

theorem createFilters_normalizes_witness:
  "fst (createFilters sample_env
      (sample_config [(''filters'', VList (map VMap
         [[(VStr ''message_type'', VStr ''1300''), (VStr ''syscall'', VInt 59),
           (VStr ''regex'', VStr ''comm='')],
          [(VStr ''regex'', VStr ''exe=''), (VStr ''syscall'', VStr ''2''),
           (VStr ''message_type'', VInt 70000)]]))])
      initial_world)
     = Inr [\<lparr>MessageType = 1300, Regex = Some (Regexp ''comm=''), Syscall = ''59''\<rparr>,
            \<lparr>MessageType = 4464, Regex = Some (Regexp ''exe=''), Syscall = ''2''\<rparr>]"
proof -
  let ?kvss = "[[(VStr ''message_type'', VStr ''1300''), (VStr ''syscall'', VInt 59),
           (VStr ''regex'', VStr ''comm='')],
          [(VStr ''regex'', VStr ''exe=''), (VStr ''syscall'', VStr ''2''),
           (VStr ''message_type'', VInt 70000)]]"
  have g: "Get (sample_config [(''filters'', VList (map VMap ?kvss))]) ''filters''
             = VList (map VMap ?kvss)"
    by (simp add: Get_def sample_config_def)
  have d: "decimalValue ''1300'' = 1300"
    by (simp add: decimalValue_def digitVal_def)
  have a: "list_all (acceptedFilter sample_env) ?kvss"
    by (simp add: acceptedFilter_def decimalString_def isDigit_def d sample_simps)
  have i: "Itoa 59 = ''59''"
    by code_simp
  have w: "(word_of_int 70000 :: 16 word) = 4464"
    by simp
  have n: "map normalized ?kvss
     = [\<lparr>MessageType = 1300, Regex = Some (Regexp ''comm=''), Syscall = ''59''\<rparr>,
        \<lparr>MessageType = 4464, Regex = Some (Regexp ''exe=''), Syscall = ''2''\<rparr>]"
    by (simp add: normalized_def messageTypeValue_def syscallText_def d i w)
  show ?thesis
    using createFilters_normalizes [OF g a, of initial_world] n by simp
qed

theorem message_type_truncated_counterexample:
  "fst (createFilters sample_env
      (sample_config [(''filters'', VList
         [VMap [(VStr ''message_type'', VInt 70000), (VStr ''syscall'', VInt 59),
                (VStr ''regex'', VStr ''comm='')]])])
      initial_world)
     = Inr [\<lparr>MessageType = 4464, Regex = Some (Regexp ''comm=''), Syscall = ''59''\<rparr>]
   \<and> uint (4464 :: 16 word) \<noteq> 70000"
proof -
  have i: "Itoa 59 = ''59''"
    by code_simp
  have w: "(word_of_int 70000 :: 16 word) = 4464"
    by simp
  show ?thesis
    by (simp add: createFilters_def Get_def sample_config_def setField_def zero_filter_def
        sample_simps i w)
qed

theorem filter_without_regex_panics_witness:
  "createFilters sample_env
      (sample_config [(''filters'', VList
         [VMap [(VStr ''message_type'', VInt 1300), (VStr ''syscall'', VStr ''59'')]])])
      initial_world
     = (Inl NilPointerDereference, initial_world)"
  using filter_without_regex_panics [of
      "sample_config [(''filters'', VList
         [VMap [(VStr ''message_type'', VInt 1300), (VStr ''syscall'', VStr ''59'')]])]"
      "[(VStr ''message_type'', VInt 1300), (VStr ''syscall'', VStr ''59'')]" "[]"
      sample_env initial_world]
  by (simp add: Get_def sample_config_def invalidField_def)

theorem receive_errors_continue_witness:
  "mainLoop (\<lambda>msg m w. (Inl (Exit 2), w)) [RecvError ''EINTR'', RecvNil, RecvError ''EAGAIN'']
      (0 :: nat) (AuditLoggerNew (Some PtrL) (Some PtrEL) None initial_world)
     = (Inr 0, (AuditLoggerNew (Some PtrL) (Some PtrEL) None initial_world)
         \<lparr>events := [Printed Stderr 0 ''Error during message receive: %+v'' [AStr ''EINTR''],
                      Printed Stderr 0 ''Error during message receive: %+v'' [AStr ''EAGAIN'']]\<rparr>)
   \<and> mainLoop (\<lambda>msg m w. (Inl (Exit 2), w)) ([RecvNil] @ RecvError ''EINTR'' # [RecvMsg ''type=1300''])
      (0 :: nat) (AuditLoggerNew (Some PtrL) (Some PtrEL) None initial_world)
     = (Inl (Exit 2), (AuditLoggerNew (Some PtrL) (Some PtrEL) None initial_world)
         \<lparr>events := [Printed Stderr 0 ''Error during message receive: %+v'' [AStr ''EINTR'']]\<rparr>)"
proof -
  let ?C = "\<lambda>(msg :: string) (m :: nat) (w :: world). (Inl (Exit 2) :: process_end + nat, w)"
  let ?w = "AuditLoggerNew (Some PtrL) (Some PtrEL) None initial_world"
  have l: "sysLog ?w = None \<and> stdErr ?w = Some PtrEL"
    by (simp add: AuditLoggerNew_def)
  have n: "\<not> list_ex isMessage [RecvError ''EINTR'', RecvNil, RecvError ''EAGAIN'' :: string received]"
    by (simp add: isMessage_def)
  have a: "mainLoop ?C [RecvError ''EINTR'', RecvNil, RecvError ''EAGAIN''] 0 ?w
     = (Inr 0, ?w\<lparr>events := [Printed Stderr 0 ''Error during message receive: %+v'' [AStr ''EINTR''],
                      Printed Stderr 0 ''Error during message receive: %+v'' [AStr ''EAGAIN'']]\<rparr>)"
    using receive_errors_continue [of ?C "[]" 0 ?w 0 ?w "''EINTR''" "[]"
            "[RecvError ''EINTR'', RecvNil, RecvError ''EAGAIN'']"] n
    by (simp add: logger_Err_def Printf_def emit_def AuditLoggerNew_def initial_world_def)
  have s: "mainLoop ?C [RecvNil] 0 ?w = (Inr 0, ?w)"
    by simp
  have b: "mainLoop ?C ([RecvNil] @ RecvError ''EINTR'' # [RecvMsg ''type=1300'']) 0 ?w
     = (Inl (Exit 2), ?w\<lparr>events := [Printed Stderr 0 ''Error during message receive: %+v'' [AStr ''EINTR'']]\<rparr>)"
    using receive_errors_continue [of ?C "[RecvNil]" 0 ?w 0 ?w "''EINTR''" "[RecvMsg ''type=1300'']"] s l
    by (simp add: AuditLoggerNew_def initial_world_def)
  show ?thesis using a b by simp
qed



end
